theory Spec2Isabelle
  imports Complex_Main "HOL-Library.Stream"
begin

section \<open>JavaScript primitives used by the game component\<close>

text \<open>
  The component (\<^verbatim>\<open>ChessGame\<close>) works on the move list of chess.js, a list of moves
  in standard algebraic notation (SAN): \<^verbatim>\<open>game.moves()\<close> has type \<^verbatim>\<open>string[]\<close>.
  A move is therefore a \<^typ>\<open>string\<close> here, and the tests the policy makes on a move
  are substring tests on its SAN text.
\<close>

text \<open>\<^verbatim>\<open>s.startsWith(sub)\<close> and \<^verbatim>\<open>s.includes(sub)\<close> of JavaScript strings.\<close>

fun startsWith :: "string \<Rightarrow> string \<Rightarrow> bool" where
  "startsWith s [] = True"
| "startsWith [] (c # cs) = False"
| "startsWith (a # as) (c # cs) = (a = c \<and> startsWith as cs)"

fun includes_str :: "string \<Rightarrow> string \<Rightarrow> bool" where
  "includes_str [] sub = (sub = [])"
| "includes_str (c # cs) sub = (startsWith (c # cs) sub \<or> includes_str cs sub)"

text \<open>
  \<^verbatim>\<open>xs[i]\<close>: reading an array outside its bounds gives \<^verbatim>\<open>undefined\<close>, written
  \<open>None\<close>. The policy's result type is \<^verbatim>\<open>string | null\<close>; \<^verbatim>\<open>null\<close> is \<open>None\<close> too,
  since the only reader of the result tests it for truthiness.
\<close>

definition arrayAt :: "'a list \<Rightarrow> int \<Rightarrow> 'a option" where
  "arrayAt xs i = (if 0 \<le> i \<and> i < int (length xs) then Some (xs ! nat i) else None)"

text \<open>
  \<^verbatim>\<open>Math.random()\<close> is modelled as reading the next draw of a stream of draws that is
  an input of the model. A draw is a number \<open>r\<close> with \<open>0 \<le> r < 1\<close>
  (\<open>unitDraw\<close>); the double is idealised as a real number.
\<close>

type_synonym rng = "real stream"

definition mathRandom :: "rng \<Rightarrow> real \<times> rng" where
  "mathRandom g = (shd g, stl g)"

definition unitDraw :: "real \<Rightarrow> bool" where
  "unitDraw r = (0 \<le> r \<and> r < 1)"

text \<open>
  \<^verbatim>\<open>Math.floor(r * xs.length)\<close>, the index the policy computes from a draw \<open>r\<close>.
  The model floors the exact product. The code floors the product of doubles, the
  double nearest to the exact product: the two indices are equal whenever the exact
  product is itself a double, and both lie between \<open>0\<close> and \<open>n - 1\<close>, but at the end
  of an interval the code's index can be the next one (for the doubles written 0.95
  and 20 the code's product is 19, the exact product of the double is below 19). What
  is proved below of the index is proved of the exact one; in the concrete instances
  below every product of a draw and a length is a double.
\<close>

definition floorIndex :: "real \<Rightarrow> nat \<Rightarrow> int" where
  "floorIndex r n = \<lfloor>r * real n\<rfloor>"

text \<open>
  \<^verbatim>\<open>xs[Math.floor(Math.random() * xs.length)]\<close>, the expression the policy uses in
  each of its three branches.
\<close>

definition randomElement :: "'a list \<Rightarrow> rng \<Rightarrow> 'a option \<times> rng" where
  "randomElement xs g = (let (r, g') = mathRandom g in (arrayAt xs (floorIndex r (length xs)), g'))"

section \<open>The move policy: \<^verbatim>\<open>generateAIMove\<close>\<close>

text \<open>
  \<^verbatim>\<open>possibleMoves.filter(move => move.includes('x'))\<close>: in SAN the letter x marks a
  capture and stands in no other move, so these are the capturing moves.
\<close>

definition captureMoves :: "string list \<Rightarrow> string list" where
  "captureMoves possibleMoves = filter (\<lambda>move. includes_str move ''x'') possibleMoves"

text \<open>The moves whose SAN text contains the name of one of the four centre squares.\<close>

definition centerMoves :: "string list \<Rightarrow> string list" where
  "centerMoves possibleMoves =
     filter (\<lambda>move. includes_str move ''e4'' \<or> includes_str move ''e5'' \<or>
                     includes_str move ''d4'' \<or> includes_str move ''d5'') possibleMoves"

text \<open>
  \<^verbatim>\<open>generateAIMove(game)\<close> reads the position through \<^verbatim>\<open>game.moves()\<close> only, in its
  first line; the model takes that list, \<open>possibleMoves\<close>, and the draws, and returns
  the move together with the draws that are left. The guard
  \<^verbatim>\<open>centerMoves.length > 0 && Math.random() > 0.7\<close> short-circuits: the draw for the
  gate is made only when there is a centre move.
\<close>

definition generateAIMove :: "string list \<Rightarrow> rng \<Rightarrow> string option \<times> rng" where
  "generateAIMove possibleMoves g =
     (if length possibleMoves = 0 then (None, g)
      else if length (captureMoves possibleMoves) > 0 then
        randomElement (captureMoves possibleMoves) g
      else if length (centerMoves possibleMoves) > 0 then
        (let (gate, g') = mathRandom g in
         if gate > 7 / 10 then randomElement (centerMoves possibleMoves) g'
         else randomElement possibleMoves g')
      else randomElement possibleMoves g)"

subsection \<open>The destination of a move\<close>

text \<open>
  The specification speaks of a move whose destination is a centre square. The
  destination of a SAN move is read off its text: the two characters before the
  promotion suffix (\<^verbatim>\<open>=Q\<close>) and the check or mate mark (\<^verbatim>\<open>+\<close>, \<^verbatim>\<open>#\<close>).
  This is the specification's notion, kept apart from \<open>centerMoves\<close>, which is
  the test the code makes. Every move to a centre square passes the test of the code
  (\<open>destinationInCenter_centerMoves\<close> below); the converse fails.
\<close>

definition sanDestination :: "string \<Rightarrow> string" where
  "sanDestination m =
     (let core = takeWhile (\<lambda>c. c \<noteq> CHR ''='' \<and> c \<noteq> CHR ''+'' \<and> c \<noteq> CHR ''#'') m
      in drop (length core - 2) core)"

definition destinationInCenter :: "string \<Rightarrow> bool" where
  "destinationInCenter m = (sanDestination m \<in> set [''d4'', ''d5'', ''e4'', ''e5''])"

section \<open>The game session\<close>

subsection \<open>The interface of chess.js\<close>

text \<open>
  chess.js is an external library. The component uses \<^verbatim>\<open>new Chess()\<close>,
  \<^verbatim>\<open>new Chess(fen)\<close>, \<^verbatim>\<open>fen()\<close>, \<^verbatim>\<open>moves()\<close>, \<^verbatim>\<open>move(san)\<close>, \<^verbatim>\<open>isGameOver()\<close> and
  \<^verbatim>\<open>turn()\<close>; these are a parameter of the model, a record of functions over a type
  \<open>'g\<close> of positions. \<^verbatim>\<open>move\<close> changes the position it is called on and returns
  a move object, of which the component reads \<^verbatim>\<open>captured\<close> and \<^verbatim>\<open>color\<close>; for a
  move it does not accept it returns \<^verbatim>\<open>null\<close> or throws, depending on the version.
\<close>

datatype side = W | B

datatype player = White | Black

record moveResult =
  captured :: "string option"
  color :: side

datatype 'g moveOutcome = MoveDone moveResult 'g | MoveNull | MoveThrows

record 'g chessjs =
  newChess :: 'g
  chessFromFen :: "string \<Rightarrow> 'g"
  fen :: "'g \<Rightarrow> string"
  moves :: "'g \<Rightarrow> string list"
  move :: "'g \<Rightarrow> string \<Rightarrow> 'g moveOutcome"
  isGameOver :: "'g \<Rightarrow> bool"
  turn :: "'g \<Rightarrow> side"

subsection \<open>The state of the component\<close>

text \<open>The interface \<^verbatim>\<open>GameState\<close>; \<^verbatim>\<open>gameSpeed\<close> is the delay between moves in milliseconds.\<close>

record captures =
  white :: "string list"
  black :: "string list"

record 'g GameState =
  game :: 'g
  gameHistory :: "string list"
  isGameActive :: bool
  currentPlayer :: player
  gameSpeed :: int
  capturedPieces :: captures

text \<open>
  The effect of the component schedules the next move with \<^verbatim>\<open>setTimeout\<close>. A pending
  timeout is its delay and the \<^verbatim>\<open>gameState\<close> its callback closed over. A session is
  the state held by \<^verbatim>\<open>useState\<close> together with the pending timeout, if any.
\<close>

record 'g timeout =
  delay :: int
  closure :: "'g GameState"

record 'g session =
  gameState :: "'g GameState"
  timer :: "'g timeout option"

text \<open>The argument of \<^verbatim>\<open>useState\<close>, which is also the object \<^verbatim>\<open>resetGame\<close> stores.\<close>

definition initialGameState :: "'g chessjs \<Rightarrow> 'g GameState" where
  "initialGameState lib =
     \<lparr>game = newChess lib, gameHistory = [], isGameActive = False, currentPlayer = White,
      gameSpeed = 2000, capturedPieces = \<lparr>white = [], black = []\<rparr>\<rparr>"

subsection \<open>The effect that schedules moves\<close>

text \<open>
  The body of the effect up to \<^verbatim>\<open>setTimeout\<close>: it returns early when the game is
  not active or is over, and otherwise schedules the callback after \<^verbatim>\<open>gameSpeed\<close>.
\<close>

definition scheduleMove :: "'g chessjs \<Rightarrow> 'g GameState \<Rightarrow> 'g timeout option" where
  "scheduleMove lib st =
     (if \<not> isGameActive st \<or> isGameOver lib (game st) then None
      else Some \<lparr>delay = gameSpeed st, closure = st\<rparr>)"

text \<open>
  The dependency list of the effect is \<^verbatim>\<open>game.fen()\<close>, \<^verbatim>\<open>isGameActive\<close>,
  \<^verbatim>\<open>gameSpeed\<close>, \<^verbatim>\<open>generateAIMove\<close> (which never changes) and \<^verbatim>\<open>capturedPieces\<close>.
  The last is an object, compared by identity: an update written \<^verbatim>\<open>{...prev, f: v}\<close>
  keeps the object, while \<^verbatim>\<open>resetGame\<close> and the timer callback store a new one. The
  flag \<open>freshCaptured\<close> says which of the two an update does.
\<close>

definition depsChanged :: "'g chessjs \<Rightarrow> 'g GameState \<Rightarrow> 'g GameState \<Rightarrow> bool \<Rightarrow> bool" where
  "depsChanged lib old new freshCaptured =
     (fen lib (game old) \<noteq> fen lib (game new) \<or> isGameActive old \<noteq> isGameActive new \<or>
      gameSpeed old \<noteq> gameSpeed new \<or> freshCaptured)"

text \<open>
  \<^verbatim>\<open>setGameState\<close> followed by the render it causes: when a dependency changed, the
  cleanup of the effect clears the pending timeout and the effect runs again on the
  new state; otherwise the pending timeout stays. The state update and the cleanup
  are one step of the model.
\<close>

definition setGameState :: "'g chessjs \<Rightarrow> bool \<Rightarrow> 'g GameState \<Rightarrow> 'g session \<Rightarrow> 'g session" where
  "setGameState lib freshCaptured new s =
     \<lparr>gameState = new,
      timer = (if depsChanged lib (gameState s) new freshCaptured then scheduleMove lib new
               else timer s)\<rparr>"

text \<open>The component after its first render.\<close>

definition initialSession :: "'g chessjs \<Rightarrow> 'g session" where
  "initialSession lib =
     \<lparr>gameState = initialGameState lib, timer = scheduleMove lib (initialGameState lib)\<rparr>"

subsection \<open>The commands\<close>

definition startGame :: "'g chessjs \<Rightarrow> 'g session \<Rightarrow> 'g session" where
  "startGame lib s = setGameState lib False ((gameState s)\<lparr>isGameActive := True\<rparr>) s"

definition pauseGame :: "'g chessjs \<Rightarrow> 'g session \<Rightarrow> 'g session" where
  "pauseGame lib s = setGameState lib False ((gameState s)\<lparr>isGameActive := False\<rparr>) s"

definition resetGame :: "'g chessjs \<Rightarrow> 'g session \<Rightarrow> 'g session" where
  "resetGame lib s = setGameState lib True (initialGameState lib) s"

definition handleSpeedChange :: "'g chessjs \<Rightarrow> int \<Rightarrow> 'g session \<Rightarrow> 'g session" where
  "handleSpeedChange lib newSpeed s =
     setGameState lib False ((gameState s)\<lparr>gameSpeed := newSpeed\<rparr>) s"

subsection \<open>The timer callback\<close>

text \<open>
  \<^verbatim>\<open>newCapturedPieces[capturingColor].push(capturedPiece)\<close>, guarded by
  \<^verbatim>\<open>if (moveResult.captured)\<close>. The push writes into the array the old state holds
  too; the old state is replaced in the same step, so the lists are values here.
\<close>

definition pushCaptured :: "moveResult \<Rightarrow> captures \<Rightarrow> captures" where
  "pushCaptured moveResult cp =
     (case captured moveResult of
        None \<Rightarrow> cp
      | Some capturedPiece \<Rightarrow>
          if capturedPiece = [] then cp
          else if color moveResult = W then cp\<lparr>white := white cp @ [capturedPiece]\<rparr>
          else cp\<lparr>black := black cp @ [capturedPiece]\<rparr>)"

text \<open>
  How a callback ends: it completes, or an exception escapes it (\<open>Uncaught\<close>). The
  callback below completes with the new state when it called \<^verbatim>\<open>setGameState\<close>
  (the updater applied to the current state \<open>prev\<close>) and with \<open>None\<close> when it did
  not. \<open>c\<close> is the \<^verbatim>\<open>gameState\<close> of the closure. \<^verbatim>\<open>if (move)\<close> and
  \<^verbatim>\<open>if (moveResult)\<close> are truthiness tests: \<^verbatim>\<open>null\<close>, \<^verbatim>\<open>undefined\<close> and the empty
  string fail them.
\<close>

datatype 'a completion = Completed 'a | Uncaught

definition timerCallback ::
  "'g chessjs \<Rightarrow> 'g GameState \<Rightarrow> rng \<Rightarrow> 'g GameState \<Rightarrow> 'g GameState option completion" where
  "timerCallback lib c g prev =
     (let newGame = chessFromFen lib (fen lib (game c)) in
      case fst (generateAIMove (moves lib newGame) g) of
        None \<Rightarrow> Completed None
      | Some mv \<Rightarrow>
          if mv = [] then Completed None
          else (case move lib newGame mv of
                  MoveThrows \<Rightarrow> Uncaught
                | MoveNull \<Rightarrow> Completed None
                | MoveDone moveResult movedGame \<Rightarrow>
                    Completed (Some (prev\<lparr>game := movedGame,
                       gameHistory := gameHistory prev @ [mv],
                       currentPlayer := (if turn lib movedGame = W then White else Black),
                       capturedPieces := pushCaptured moveResult (capturedPieces c)\<rparr>))))"

text \<open>
  The delay of the pending timeout elapses. With no pending timeout nothing runs.
  Otherwise the timeout is used up and its callback runs with the draws \<open>g\<close>.
\<close>

definition timerFires :: "'g chessjs \<Rightarrow> rng \<Rightarrow> 'g session \<Rightarrow> 'g session" where
  "timerFires lib g s =
     (case timer s of
        None \<Rightarrow> s
      | Some t \<Rightarrow>
          (case timerCallback lib (closure t) g (gameState s) of
             Completed (Some new) \<Rightarrow> setGameState lib True new (s\<lparr>timer := None\<rparr>)
           | Completed None \<Rightarrow> s\<lparr>timer := None\<rparr>
           | Uncaught \<Rightarrow> s\<lparr>timer := None\<rparr>))"

subsection \<open>Runs of the component\<close>

datatype event = Start | Pause | Reset | SpeedChange int | Elapsed rng

fun step :: "'g chessjs \<Rightarrow> 'g session \<Rightarrow> event \<Rightarrow> 'g session" where
  "step lib s Start = startGame lib s"
| "step lib s Pause = pauseGame lib s"
| "step lib s Reset = resetGame lib s"
| "step lib s (SpeedChange v) = handleSpeedChange lib v s"
| "step lib s (Elapsed g) = timerFires lib g s"

definition run :: "'g chessjs \<Rightarrow> event list \<Rightarrow> 'g session" where
  "run lib es = foldl (step lib) (initialSession lib) es"

text \<open>
  What holds of the pending timeout in every session a run reaches: its closure is
  the current state, and it is pending only while the game is active and not over.
\<close>

definition sessionInv :: "'g chessjs \<Rightarrow> 'g session \<Rightarrow> bool" where
  "sessionInv lib s =
     (case timer s of
        None \<Rightarrow> True
      | Some t \<Rightarrow> closure t = gameState s \<and> delay t = gameSpeed (gameState s) \<and>
          isGameActive (gameState s) \<and> \<not> isGameOver lib (game (gameState s)))"

section \<open>Concrete positions\<close>

text \<open>
  A fragment of chess.js for concrete instances: positions are FEN strings, and the
  library answers in the manner of chess.js on the starting position, on the position
  after 1. e4 and on a stalemate position (black to move: Kh8; white: Qf7, Kg6). Of the
  opening moves only 1. e4 is played in the instances below, and it is the only one the
  fragment carries out; every other position counts as finished.
\<close>

definition startFen :: string where
  "startFen = ''rnbqkbnr/pppppppp/8/8/8/8/PPPPPPPP/RNBQKBNR w KQkq - 0 1''"

definition afterE4Fen :: string where
  "afterE4Fen = ''rnbqkbnr/pppppppp/8/8/4P3/8/PPPP1PPP/RNBQKBNR b KQkq - 0 1''"

definition stalemateFen :: string where
  "stalemateFen = ''7k/5Q2/6K1/8/8/8/8/8 b - - 0 1''"

definition openingMoves :: "string list" where
  "openingMoves =
     [''a3'', ''a4'', ''b3'', ''b4'', ''c3'', ''c4'', ''d3'', ''d4'', ''e3'', ''e4'',
      ''f3'', ''f4'', ''g3'', ''g4'', ''h3'', ''h4'', ''Na3'', ''Nc3'', ''Nf3'', ''Nh3'']"

definition repliesToE4 :: "string list" where
  "repliesToE4 =
     [''Nc6'', ''Na6'', ''Nh6'', ''Nf6'', ''a6'', ''a5'', ''b6'', ''b5'', ''c6'', ''c5'',
      ''d6'', ''d5'', ''e6'', ''e5'', ''f6'', ''f5'', ''g6'', ''g5'', ''h6'', ''h5'']"

definition sampleChess :: "string chessjs" where
  "sampleChess =
     \<lparr>newChess = startFen,
      chessFromFen = (\<lambda>f. f),
      fen = (\<lambda>g. g),
      moves = (\<lambda>g. if g = startFen then openingMoves
                     else if g = afterE4Fen then repliesToE4 else []),
      move = (\<lambda>g m. if g = startFen \<and> m = ''e4''
                       then MoveDone \<lparr>captured = None, color = W\<rparr> afterE4Fen
                       else MoveNull),
      isGameOver = (\<lambda>g. g \<noteq> startFen \<and> g \<noteq> afterE4Fen),
      turn = (\<lambda>g. if includes_str g '' b '' then B else W)\<rparr>"

text \<open>
  The legal moves of white in the position \<^verbatim>\<open>k7/8/8/8/3N3N/8/3N4/K7 w - - 0 1\<close>
  (white: Ka1 and knights on d4, h4 and d2; black: Ka8). The three knights all reach
  f3, and the knight on d4 shares its rank with one and its file with the other, so
  its move to f3 is written with its full square of origin: \<^verbatim>\<open>Nd4f3\<close>.
\<close>

definition threeKnightsMoves :: "string list" where
  "threeKnightsMoves =
     [''Nb5'', ''Nc6'', ''Ne6'', ''Ndf5'', ''Nd4f3'', ''Ne2'', ''Nc2'', ''N4b3'',
      ''Nhf5'', ''Ng6'', ''Ng2'', ''Nhf3'',
      ''N2b3'', ''Nc4'', ''Ne4'', ''N2f3'', ''Nf1'', ''Nb1'',
      ''Ka2'', ''Kb2'', ''Kb1'']"

text \<open>
  Streams of draws. Their first draw opens the gate of the centre tier
  (\<open>7/8 > 7/10\<close>), the second draw gives the index. The draws are doubles
  (\<open>0.875\<close>, \<open>0.75\<close>, \<open>0.25\<close>), and so are their products with the length 2 of the
  centre tiers below (\<open>1.5\<close> and \<open>0.5\<close>).
\<close>

definition e4Draws :: rng where
  "e4Draws = 7 / 8 ## 3 / 4 ## sconst 0"

definition lowDraws :: rng where
  "lowDraws = 7 / 8 ## 1 / 4 ## sconst 0"

text \<open>
  Three sessions: the game started from the first render; the same after its first
  timeout elapsed and played 1. e4, with the next timeout pending; and a started
  session on the stalemate position.
\<close>

definition runningSession :: "string session" where
  "runningSession = run sampleChess [Start]"

definition midDelaySession :: "string session" where
  "midDelaySession = run sampleChess [Start, Elapsed e4Draws]"

definition stalemateState :: "string GameState" where
  "stalemateState =
     (initialGameState sampleChess)\<lparr>game := stalemateFen, isGameActive := True,
        currentPlayer := Black\<rparr>"

definition stalemateSession :: "string session" where
  "stalemateSession = \<lparr>gameState = stalemateState, timer = scheduleMove sampleChess stalemateState\<rparr>"

section \<open>Properties of the move policy\<close>

lemma floorIndex_range:
  assumes "unitDraw r" and "0 < n"
  shows "0 \<le> floorIndex r n \<and> floorIndex r n < int n"
proof -
  from assms have lo: "0 \<le> r * real n"
    by (simp add: unitDraw_def)
  from assms have "r * real n < 1 * real n"
    by (intro mult_strict_right_mono) (simp_all add: unitDraw_def)
  then have hi: "r * real n < real_of_int (int n)"
    by simp
  from lo have "0 \<le> \<lfloor>r * real n\<rfloor>"
    by simp
  moreover from hi have "\<lfloor>r * real n\<rfloor> < int n"
    by (simp only: floor_less_iff)
  ultimately show ?thesis
    by (simp add: floorIndex_def)
qed

lemma randomElement_member:
  assumes "xs \<noteq> []" and "unitDraw (shd g)"
  shows "fst (randomElement xs g) = Some (xs ! nat (floorIndex (shd g) (length xs)))
         \<and> xs ! nat (floorIndex (shd g) (length xs)) \<in> set xs
         \<and> snd (randomElement xs g) = stl g"
proof -
  from assms have n: "0 < length xs"
    by simp
  from floorIndex_range [OF assms(2) n]
  have r: "0 \<le> floorIndex (shd g) (length xs)" "floorIndex (shd g) (length xs) < int (length xs)"
    by simp_all
  then have "nat (floorIndex (shd g) (length xs)) < length xs"
    by linarith
  then have "xs ! nat (floorIndex (shd g) (length xs)) \<in> set xs"
    by (rule nth_mem)
  with r show ?thesis
    by (simp add: randomElement_def mathRandom_def arrayAt_def)
qed

lemma captureMoves_subset: "set (captureMoves ms) \<subseteq> set ms"
  by (auto simp: captureMoves_def)

lemma centerMoves_subset: "set (centerMoves ms) \<subseteq> set ms"
  by (auto simp: centerMoves_def)

lemma captureMoves_nonempty_iff: "captureMoves ms \<noteq> [] \<longleftrightarrow> (\<exists>m \<in> set ms. includes_str m ''x'')"
  by (auto simp: captureMoves_def filter_empty_conv)

text \<open>
  C1. Whenever the move list holds a capturing move, the policy returns a capturing
  move, taken from the capturing moves at the index of the first draw; this holds
  whatever centre moves there are, so the capture tier goes before every other tier.
\<close>

theorem capture_tier_first:
  assumes "\<exists>m \<in> set ms. includes_str m ''x''" and "unitDraw (shd g)"
  shows "\<exists>m. fst (generateAIMove ms g) = Some m
             \<and> m = captureMoves ms ! nat (floorIndex (shd g) (length (captureMoves ms)))
             \<and> m \<in> set (captureMoves ms) \<and> m \<in> set ms \<and> includes_str m ''x''"
proof -
  from assms(1) have ne: "captureMoves ms \<noteq> []"
    by (simp only: captureMoves_nonempty_iff)
  then have ms: "ms \<noteq> []"
    by (auto simp: captureMoves_def)
  let ?m = "captureMoves ms ! nat (floorIndex (shd g) (length (captureMoves ms)))"
  from randomElement_member [OF ne assms(2)]
  have pick: "fst (randomElement (captureMoves ms) g) = Some ?m" and mem: "?m \<in> set (captureMoves ms)"
    by simp_all
  from ne ms pick have "fst (generateAIMove ms g) = Some ?m"
    by (simp add: generateAIMove_def)
  moreover from mem have "?m \<in> set ms" "includes_str ?m ''x''"
    by (auto simp: captureMoves_def)
  ultimately show ?thesis
    using mem by blast
qed

theorem capture_tier_first_witness:
  "fst (generateAIMove [''e5'', ''exd5'', ''Nf3'', ''Qh5''] (sconst (1 / 2))) = Some ''exd5''"
proof -
  have h1: "\<exists>m \<in> set [''e5'', ''exd5'', ''Nf3'', ''Qh5'']. includes_str m ''x''"
    by simp
  have h2: "unitDraw (shd (sconst (1 / 2)))"
    by (simp add: unitDraw_def)
  from capture_tier_first [OF h1 h2] show ?thesis
    by (simp add: captureMoves_def floorIndex_def)
qed

text \<open>
  C2. On a non-empty move list the policy returns a move of that list, whatever the
  draws are (any two numbers of the unit interval; the policy reads at most two).
\<close>

theorem choose_member:
  assumes "ms \<noteq> []" and "unitDraw (shd g)" and "unitDraw (shd (stl g))"
  shows "\<exists>m. fst (generateAIMove ms g) = Some m \<and> m \<in> set ms"
proof (cases "captureMoves ms = []")
  case False
  from randomElement_member [OF False assms(2)] captureMoves_subset [of ms] False assms(1)
  show ?thesis
    by (auto simp: generateAIMove_def)
next
  case noCapture: True
  show ?thesis
  proof (cases "centerMoves ms = []")
    case True
    from randomElement_member [OF assms(1) assms(2)] noCapture True assms(1)
    show ?thesis
      by (auto simp: generateAIMove_def)
  next
    case False
    have step: "unitDraw (shd (stl g))"
      by (rule assms(3))
    from randomElement_member [OF False, of "stl g"] randomElement_member [OF assms(1), of "stl g"]
      step centerMoves_subset [of ms] noCapture False assms(1)
    show ?thesis
      by (auto simp: generateAIMove_def mathRandom_def)
  qed
qed

theorem choose_member_witness:
  "fst (generateAIMove [''a3'', ''e4'', ''Nf3''] (9 / 10 ## 1 / 4 ## sconst 0)) = Some ''e4''
   \<and> ''e4'' \<in> set [''a3'', ''e4'', ''Nf3'']"
proof -
  have h1: "[''a3'', ''e4'', ''Nf3''] \<noteq> []"
    by simp
  have h2: "unitDraw (shd (9 / 10 ## 1 / 4 ## sconst 0))"
    by (simp add: unitDraw_def)
  have h3: "unitDraw (shd (stl (9 / 10 ## 1 / 4 ## sconst 0)))"
    by (simp add: unitDraw_def)
  have "fst (generateAIMove [''a3'', ''e4'', ''Nf3''] (9 / 10 ## 1 / 4 ## sconst 0)) = Some ''e4''"
    by (simp add: generateAIMove_def captureMoves_def centerMoves_def randomElement_def
        mathRandom_def arrayAt_def floorIndex_def)
  with choose_member [OF h1 h2 h3] show ?thesis
    by simp
qed

lemma startsWith_append: "startsWith (sub @ b) sub"
  by (induction sub) simp_all

lemma includes_str_append: "includes_str (a @ sub @ b) sub"
proof (induction a)
  case Nil
  show ?case
  proof (cases "sub @ b")
    case Nil
    then show ?thesis
      by simp
  next
    case (Cons c cs)
    have "startsWith (sub @ b) sub"
      by (rule startsWith_append)
    with Cons show ?thesis
      by simp
  qed
next
  case (Cons c a)
  then show ?case
    by simp
qed

lemma includes_sanDestination: "includes_str m (sanDestination m)"
proof -
  let ?P = "\<lambda>c. c \<noteq> CHR ''='' \<and> c \<noteq> CHR ''+'' \<and> c \<noteq> CHR ''#''"
  let ?core = "takeWhile ?P m"
  have "?core @ dropWhile ?P m = m"
    by (rule takeWhile_dropWhile_id)
  moreover have "take (length ?core - 2) ?core @ drop (length ?core - 2) ?core = ?core"
    by (rule append_take_drop_id)
  ultimately have "m = (take (length ?core - 2) ?core @ drop (length ?core - 2) ?core) @ dropWhile ?P m"
    by (simp only:)
  also have "drop (length ?core - 2) ?core = sanDestination m"
    by (simp add: sanDestination_def Let_def)
  finally have "m = take (length ?core - 2) ?core @ sanDestination m @ dropWhile ?P m"
    by (simp only: append_assoc)
  then obtain a b where "m = a @ sanDestination m @ b"
    by blast
  then show ?thesis
    using includes_str_append [of a "sanDestination m" b] by simp
qed

lemma destinationInCenter_centerMoves:
  "set (filter destinationInCenter ms) \<subseteq> set (centerMoves ms)"
proof
  fix m
  assume "m \<in> set (filter destinationInCenter ms)"
  then have m: "m \<in> set ms" and d: "destinationInCenter m"
    by simp_all
  from d includes_sanDestination [of m]
  have "includes_str m ''e4'' \<or> includes_str m ''e5'' \<or> includes_str m ''d4'' \<or> includes_str m ''d5''"
    by (auto simp: destinationInCenter_def)
  with m show "m \<in> set (centerMoves ms)"
    by (simp add: centerMoves_def)
qed

lemma threeKnights_tiers:
  "captureMoves threeKnightsMoves = []"
  "centerMoves threeKnightsMoves = [''Nd4f3'', ''Ne4'']"
  "filter destinationInCenter threeKnightsMoves = [''Ne4'']"
  by (simp_all add: threeKnightsMoves_def captureMoves_def centerMoves_def
      destinationInCenter_def sanDestination_def)

lemma opening_tiers:
  "captureMoves openingMoves = []"
  "centerMoves openingMoves = [''d4'', ''e4'']"
  by (simp_all add: openingMoves_def captureMoves_def centerMoves_def)

text \<open>
  C5. When no legal move is a capture and the gate of the centre tier is open, the
  move is to be chosen among the moves whose destination is one of the four centre
  squares. The filter of the code takes every move whose text contains the name of a
  centre square, and so also a move that names such a square as the square the piece
  leaves. In the position of \<open>threeKnightsMoves\<close> no move captures, the only move to
  a centre square is \<^verbatim>\<open>Ne4\<close>, and the centre tier of the code is \<^verbatim>\<open>Nd4f3\<close> and
  \<^verbatim>\<open>Ne4\<close>. With the draws \<open>0.875\<close> (the gate opens) and \<open>0.25\<close> (index
  \<open>0\<close> of two) the code returns \<^verbatim>\<open>Nd4f3\<close>, a move from d4 to f3: the move returned
  from the centre tier is not a move to a centre square.
\<close>

theorem center_tier_returns_move_from_center:
  "captureMoves threeKnightsMoves = []
   \<and> filter destinationInCenter threeKnightsMoves = [''Ne4'']
   \<and> centerMoves threeKnightsMoves = [''Nd4f3'', ''Ne4'']
   \<and> 7 / 10 < shd lowDraws
   \<and> fst (generateAIMove threeKnightsMoves lowDraws) = Some ''Nd4f3''
   \<and> sanDestination ''Nd4f3'' = ''f3''
   \<and> \<not> destinationInCenter ''Nd4f3''"
proof -
  have ne: "length threeKnightsMoves \<noteq> 0"
    by (simp add: threeKnightsMoves_def)
  have gate: "7 / 10 < shd lowDraws"
    by (simp add: lowDraws_def)
  from ne gate have "generateAIMove threeKnightsMoves lowDraws
      = randomElement [''Nd4f3'', ''Ne4''] (stl lowDraws)"
    by (simp add: generateAIMove_def threeKnights_tiers mathRandom_def)
  then have "fst (generateAIMove threeKnightsMoves lowDraws) = Some ''Nd4f3''"
    by (simp add: lowDraws_def randomElement_def mathRandom_def arrayAt_def floorIndex_def)
  moreover have "sanDestination ''Nd4f3'' = ''f3''"
    by (simp add: sanDestination_def)
  ultimately show ?thesis
    using gate by (simp add: threeKnights_tiers destinationInCenter_def)
qed

section \<open>Properties of the session\<close>

subsection \<open>The concrete sessions\<close>

lemma fens_distinct: "startFen \<noteq> afterE4Fen" "afterE4Fen \<noteq> startFen"
  by (simp_all add: startFen_def afterE4Fen_def)

lemma sampleChess_simps:
  "newChess sampleChess = startFen"
  "chessFromFen sampleChess f = f"
  "fen sampleChess p = p"
  "moves sampleChess startFen = openingMoves"
  "moves sampleChess stalemateFen = []"
  "move sampleChess startFen ''e4'' = MoveDone \<lparr>captured = None, color = W\<rparr> afterE4Fen"
  "isGameOver sampleChess startFen = False"
  "isGameOver sampleChess afterE4Fen = False"
  "isGameOver sampleChess stalemateFen = True"
  "turn sampleChess afterE4Fen = B"
  by (simp_all add: sampleChess_def startFen_def afterE4Fen_def stalemateFen_def)

lemma opening_e4: "fst (generateAIMove openingMoves e4Draws) = Some ''e4''"
proof -
  have "length openingMoves \<noteq> 0"
    by (simp add: openingMoves_def)
  moreover have "7 / 10 < shd e4Draws"
    by (simp add: e4Draws_def)
  ultimately have "generateAIMove openingMoves e4Draws = randomElement [''d4'', ''e4''] (stl e4Draws)"
    by (simp add: generateAIMove_def opening_tiers mathRandom_def)
  then show ?thesis
    by (simp add: e4Draws_def randomElement_def mathRandom_def arrayAt_def floorIndex_def)
qed

lemma runningSession_eq:
  "runningSession =
     \<lparr>gameState = \<lparr>game = startFen, gameHistory = [], isGameActive = True,
         currentPlayer = White, gameSpeed = 2000, capturedPieces = \<lparr>white = [], black = []\<rparr>\<rparr>,
      timer = Some \<lparr>delay = 2000, closure = \<lparr>game = startFen, gameHistory = [],
         isGameActive = True, currentPlayer = White, gameSpeed = 2000,
         capturedPieces = \<lparr>white = [], black = []\<rparr>\<rparr>\<rparr>\<rparr>"
  by (simp add: runningSession_def run_def startGame_def initialSession_def setGameState_def
      depsChanged_def scheduleMove_def initialGameState_def sampleChess_simps)

lemma midDelaySession_eq:
  "midDelaySession =
     \<lparr>gameState = \<lparr>game = afterE4Fen, gameHistory = [''e4''], isGameActive = True,
         currentPlayer = Black, gameSpeed = 2000, capturedPieces = \<lparr>white = [], black = []\<rparr>\<rparr>,
      timer = Some \<lparr>delay = 2000, closure = \<lparr>game = afterE4Fen, gameHistory = [''e4''],
         isGameActive = True, currentPlayer = Black, gameSpeed = 2000,
         capturedPieces = \<lparr>white = [], black = []\<rparr>\<rparr>\<rparr>\<rparr>"
proof -
  have "midDelaySession = timerFires sampleChess e4Draws runningSession"
    by (simp add: midDelaySession_def runningSession_def run_def)
  then show ?thesis
    by (simp add: runningSession_eq timerFires_def timerCallback_def sampleChess_simps
        opening_e4 pushCaptured_def setGameState_def depsChanged_def scheduleMove_def)
qed

lemma stalemateSession_eq:
  "stalemateSession =
     \<lparr>gameState = \<lparr>game = stalemateFen, gameHistory = [], isGameActive = True,
         currentPlayer = Black, gameSpeed = 2000, capturedPieces = \<lparr>white = [], black = []\<rparr>\<rparr>,
      timer = None\<rparr>"
  by (simp add: stalemateSession_def stalemateState_def scheduleMove_def initialGameState_def
      sampleChess_simps)

subsection \<open>The pending timeout\<close>

lemma sessionInv_scheduled: "sessionInv lib \<lparr>gameState = st, timer = scheduleMove lib st\<rparr>"
  by (simp add: sessionInv_def scheduleMove_def)

lemma sessionInv_initial: "sessionInv lib (initialSession lib)"
  by (simp add: initialSession_def sessionInv_scheduled)

lemma sessionInv_fresh: "sessionInv lib (setGameState lib True new s)"
  by (simp add: setGameState_def depsChanged_def sessionInv_scheduled)

lemma sessionInv_cleared: "sessionInv lib (s\<lparr>timer := None\<rparr>)"
  by (simp add: sessionInv_def)

lemma sessionInv_startGame: "sessionInv lib s \<Longrightarrow> sessionInv lib (startGame lib s)"
  by (auto simp: startGame_def setGameState_def depsChanged_def sessionInv_def scheduleMove_def
      split: option.splits)

lemma sessionInv_pauseGame: "sessionInv lib s \<Longrightarrow> sessionInv lib (pauseGame lib s)"
  by (auto simp: pauseGame_def setGameState_def depsChanged_def sessionInv_def scheduleMove_def
      split: option.splits)

lemma sessionInv_handleSpeedChange:
  "sessionInv lib s \<Longrightarrow> sessionInv lib (handleSpeedChange lib v s)"
  by (auto simp: handleSpeedChange_def setGameState_def depsChanged_def sessionInv_def
      scheduleMove_def split: option.splits)

lemma sessionInv_resetGame: "sessionInv lib (resetGame lib s)"
  by (simp add: resetGame_def sessionInv_fresh)

lemma sessionInv_timerFires: "sessionInv lib s \<Longrightarrow> sessionInv lib (timerFires lib g s)"
proof (cases "timer s")
  case None
  assume "sessionInv lib s"
  with None show ?thesis
    by (simp add: timerFires_def)
next
  case (Some t)
  show ?thesis
  proof (cases "timerCallback lib (closure t) g (gameState s)")
    case (Completed r)
    with Some show ?thesis
      by (cases r) (simp_all add: timerFires_def sessionInv_cleared sessionInv_fresh)
  next
    case Uncaught
    with Some show ?thesis
      by (simp add: timerFires_def sessionInv_cleared)
  qed
qed

lemma sessionInv_step: "sessionInv lib s \<Longrightarrow> sessionInv lib (step lib s e)"
  by (cases e)
    (simp_all add: sessionInv_startGame sessionInv_pauseGame sessionInv_resetGame
      sessionInv_handleSpeedChange sessionInv_timerFires)

lemma sessionInv_foldl: "sessionInv lib s \<Longrightarrow> sessionInv lib (foldl (step lib) s es)"
  by (induction es arbitrary: s) (simp_all add: sessionInv_step)

text \<open>Every session that a run of the component reaches satisfies the invariant.\<close>

lemma sessionInv_run: "sessionInv lib (run lib es)"
  unfolding run_def by (rule sessionInv_foldl) (rule sessionInv_initial)

lemma timer_pauseGame: "sessionInv lib s \<Longrightarrow> timer (pauseGame lib s) = None"
  by (auto simp: pauseGame_def setGameState_def depsChanged_def sessionInv_def scheduleMove_def
      split: option.splits)

lemma timer_resetGame: "timer (resetGame lib s) = None"
  by (simp add: resetGame_def setGameState_def depsChanged_def scheduleMove_def
      initialGameState_def)

lemma gameState_resetGame: "gameState (resetGame lib s) = initialGameState lib"
  by (simp add: resetGame_def setGameState_def)

lemma timerFires_idle: "timer s = None \<Longrightarrow> timerFires lib g s = s"
  by (simp add: timerFires_def)

lemma timerFires_idle_all: "timer s = None \<Longrightarrow> foldl (\<lambda>t g. timerFires lib g t) s gs = s"
  by (induction gs) (simp_all add: timerFires_idle)

lemma timer_gameOver:
  "sessionInv lib s \<Longrightarrow> isGameOver lib (game (gameState s)) \<Longrightarrow> timer s = None"
  by (cases "timer s") (simp_all add: sessionInv_def)

subsection \<open>The delay-change command\<close>

text \<open>
  The claim C3 as written fails: \<^verbatim>\<open>handleSpeedChange\<close> has no range check. Called with
  100000 on the first session it stores 100000.
\<close>

theorem speed_change_range_counterexample:
  "gameSpeed (gameState (handleSpeedChange sampleChess 100000 (initialSession sampleChess))) = 100000
   \<and> \<not> (gameSpeed (gameState (handleSpeedChange sampleChess 100000 (initialSession sampleChess)))
        \<le> 5000)"
  by (simp add: handleSpeedChange_def setGameState_def)

text \<open>
  C3, amended. For every integer \<open>v\<close>, the delay-change command stores \<open>v\<close> as the
  delay between moves, inside the range from 500 to 5000 or not, without clamping and
  without refusing; the stored delay is within the range exactly when \<open>v\<close> is. The
  board, the move history, the active flag, the player to move and the capture lists
  are unchanged.
\<close>

theorem speed_change_stores_value:
  "gameState (handleSpeedChange lib v s) = (gameState s)\<lparr>gameSpeed := v\<rparr>
   \<and> gameSpeed (gameState (handleSpeedChange lib v s)) = v
   \<and> ((500 \<le> gameSpeed (gameState (handleSpeedChange lib v s))
        \<and> gameSpeed (gameState (handleSpeedChange lib v s)) \<le> 5000)
       = (500 \<le> v \<and> v \<le> 5000))
   \<and> game (gameState (handleSpeedChange lib v s)) = game (gameState s)
   \<and> gameHistory (gameState (handleSpeedChange lib v s)) = gameHistory (gameState s)
   \<and> isGameActive (gameState (handleSpeedChange lib v s)) = isGameActive (gameState s)
   \<and> currentPlayer (gameState (handleSpeedChange lib v s)) = currentPlayer (gameState s)
   \<and> capturedPieces (gameState (handleSpeedChange lib v s)) = capturedPieces (gameState s)"
  by (simp add: handleSpeedChange_def setGameState_def)

theorem speed_change_stores_value_witness:
  "gameState (handleSpeedChange sampleChess 250 midDelaySession)
     = \<lparr>game = afterE4Fen, gameHistory = [''e4''], isGameActive = True,
        currentPlayer = Black, gameSpeed = 250, capturedPieces = \<lparr>white = [], black = []\<rparr>\<rparr>
   \<and> gameState (handleSpeedChange sampleChess 750 midDelaySession)
     = \<lparr>game = afterE4Fen, gameHistory = [''e4''], isGameActive = True,
        currentPlayer = Black, gameSpeed = 750, capturedPieces = \<lparr>white = [], black = []\<rparr>\<rparr>"
  using speed_change_stores_value [of sampleChess 250 midDelaySession]
    speed_change_stores_value [of sampleChess 750 midDelaySession]
  by (simp add: midDelaySession_eq)

subsection \<open>The policy on an empty move list\<close>

text \<open>
  The claim C4 as written fails: on the empty move list the policy returns
  \<^verbatim>\<open>null\<close>, and the timer callback that called it completes without an exception
  and without a state update.
\<close>

theorem empty_move_set_counterexample:
  "fst (generateAIMove [] e4Draws) = None
   \<and> moves sampleChess (chessFromFen sampleChess (fen sampleChess (game stalemateState))) = []
   \<and> timerCallback sampleChess stalemateState e4Draws stalemateState = Completed None
   \<and> timerCallback sampleChess stalemateState e4Draws stalemateState \<noteq> Uncaught"
  by (simp add: generateAIMove_def timerCallback_def stalemateState_def sampleChess_simps)

text \<open>
  C4, amended. Invoked with an empty move set, the move policy returns \<^verbatim>\<open>null\<close>
  and consumes no draw; it raises no error. The timer callback that invoked it then
  completes normally and applies no move: it does not update the state.
\<close>

theorem empty_move_set_returns_null:
  "generateAIMove [] g = (None, g)
   \<and> (moves lib (chessFromFen lib (fen lib (game c))) = []
        \<longrightarrow> timerCallback lib c g prev = Completed None)"
  by (simp add: generateAIMove_def timerCallback_def)

theorem empty_move_set_returns_null_witness:
  "generateAIMove [] e4Draws = (None, e4Draws)
   \<and> timerCallback sampleChess stalemateState e4Draws stalemateState = Completed None"
proof -
  have h: "moves sampleChess (chessFromFen sampleChess (fen sampleChess (game stalemateState))) = []"
    by (simp add: stalemateState_def sampleChess_simps)
  from empty_move_set_returns_null [of e4Draws sampleChess stalemateState stalemateState] h
  show ?thesis
    by blast
qed


subsection \<open>Cancelling the pending move\<close>

text \<open>
  C6. Take a session reached by the component (one satisfying \<open>sessionInv\<close>). After
  pause, and after reset, no timeout is pending, and however often the delay then
  elapses, with whatever draws, the session stays as the command left it: the pending
  move is never applied, and board, history and capture lists do not change. Pause
  itself changes the active flag only. If the game is over, no timeout is pending and
  an elapsed delay changes nothing.
\<close>

theorem cancelled_tick_applies_no_move:
  assumes "sessionInv lib s"
  shows "timer (pauseGame lib s) = None
       \<and> foldl (\<lambda>t g. timerFires lib g t) (pauseGame lib s) gs = pauseGame lib s
       \<and> gameState (pauseGame lib s) = (gameState s)\<lparr>isGameActive := False\<rparr>
       \<and> timer (resetGame lib s) = None
       \<and> foldl (\<lambda>t g. timerFires lib g t) (resetGame lib s) gs = resetGame lib s
       \<and> (isGameOver lib (game (gameState s)) \<longrightarrow> timer s = None \<and> timerFires lib g s = s)"
proof -
  from assms have p: "timer (pauseGame lib s) = None"
    by (rule timer_pauseGame)
  have r: "timer (resetGame lib s) = None"
    by (rule timer_resetGame)
  have st: "gameState (pauseGame lib s) = (gameState s)\<lparr>isGameActive := False\<rparr>"
    by (simp add: pauseGame_def setGameState_def)
  have over: "timer s = None \<and> timerFires lib g s = s" if "isGameOver lib (game (gameState s))"
  proof -
    from assms that have "timer s = None"
      by (rule timer_gameOver)
    then show ?thesis
      by (simp add: timerFires_idle)
  qed
  from p r st over timerFires_idle_all [OF p, of lib gs] timerFires_idle_all [OF r, of lib gs]
  show ?thesis
    by blast
qed

text \<open>
  The instance: in \<open>runningSession\<close> the first move is pending, and when the delay
  elapses it is played (1. e4). After pause the elapsed delay leaves the starting
  position on the board. In \<open>stalemateSession\<close> the game is over.
\<close>

theorem cancelled_tick_applies_no_move_witness:
  "sessionInv sampleChess runningSession
   \<and> timer runningSession \<noteq> None
   \<and> game (gameState (timerFires sampleChess e4Draws runningSession)) = afterE4Fen
   \<and> gameState (timerFires sampleChess e4Draws (pauseGame sampleChess runningSession))
       = \<lparr>game = startFen, gameHistory = [], isGameActive = False, currentPlayer = White,
          gameSpeed = 2000, capturedPieces = \<lparr>white = [], black = []\<rparr>\<rparr>
   \<and> timerFires sampleChess e4Draws (resetGame sampleChess runningSession)
       = resetGame sampleChess runningSession
   \<and> sessionInv sampleChess stalemateSession
   \<and> isGameOver sampleChess (game (gameState stalemateSession))
   \<and> timerFires sampleChess e4Draws stalemateSession = stalemateSession"
proof -
  have inv1: "sessionInv sampleChess runningSession"
    unfolding runningSession_def by (rule sessionInv_run)
  have inv2: "sessionInv sampleChess stalemateSession"
    unfolding stalemateSession_def by (rule sessionInv_scheduled)
  have over: "isGameOver sampleChess (game (gameState stalemateSession))"
    by (simp add: stalemateSession_eq sampleChess_simps)
  have pending: "timer runningSession \<noteq> None"
    by (simp add: runningSession_eq)
  have "timerFires sampleChess e4Draws runningSession = midDelaySession"
    by (simp add: midDelaySession_def runningSession_def run_def)
  then have played: "game (gameState (timerFires sampleChess e4Draws runningSession)) = afterE4Fen"
    by (simp add: midDelaySession_eq)
  from cancelled_tick_applies_no_move [OF inv1, of "[e4Draws]"]
  have paused: "timerFires sampleChess e4Draws (pauseGame sampleChess runningSession)
        = pauseGame sampleChess runningSession"
    and pausedState: "gameState (pauseGame sampleChess runningSession)
        = (gameState runningSession)\<lparr>isGameActive := False\<rparr>"
    and reset: "timerFires sampleChess e4Draws (resetGame sampleChess runningSession)
        = resetGame sampleChess runningSession"
    by simp_all
  from cancelled_tick_applies_no_move [OF inv2, of "[]" e4Draws] over
  have finished: "timerFires sampleChess e4Draws stalemateSession = stalemateSession"
    by blast
  from paused pausedState
  have "gameState (timerFires sampleChess e4Draws (pauseGame sampleChess runningSession))
       = \<lparr>game = startFen, gameHistory = [], isGameActive = False, currentPlayer = White,
          gameSpeed = 2000, capturedPieces = \<lparr>white = [], black = []\<rparr>\<rparr>"
    by (simp add: runningSession_eq)
  with inv1 inv2 over pending played reset finished show ?thesis
    by blast
qed

subsection \<open>Pause and resume\<close>

text \<open>
  C7. The pause command changes the active flag only: the board, the move history,
  both capture lists, the configured delay and the player to move are unchanged. A
  start after the pause gives back the state with the flag set, so the game goes on
  from the same board, and the next move is scheduled from that state.
\<close>

theorem pause_changes_status_only:
  "gameState (pauseGame lib s) = (gameState s)\<lparr>isGameActive := False\<rparr>
   \<and> game (gameState (pauseGame lib s)) = game (gameState s)
   \<and> gameHistory (gameState (pauseGame lib s)) = gameHistory (gameState s)
   \<and> capturedPieces (gameState (pauseGame lib s)) = capturedPieces (gameState s)
   \<and> gameSpeed (gameState (pauseGame lib s)) = gameSpeed (gameState s)
   \<and> currentPlayer (gameState (pauseGame lib s)) = currentPlayer (gameState s)
   \<and> gameState (startGame lib (pauseGame lib s)) = (gameState s)\<lparr>isGameActive := True\<rparr>
   \<and> timer (startGame lib (pauseGame lib s))
       = scheduleMove lib ((gameState s)\<lparr>isGameActive := True\<rparr>)"
  by (simp add: pauseGame_def startGame_def setGameState_def depsChanged_def)

theorem pause_changes_status_only_witness:
  "gameState (pauseGame sampleChess midDelaySession)
     = \<lparr>game = afterE4Fen, gameHistory = [''e4''], isGameActive = False,
        currentPlayer = Black, gameSpeed = 2000, capturedPieces = \<lparr>white = [], black = []\<rparr>\<rparr>
   \<and> startGame sampleChess (pauseGame sampleChess midDelaySession) = midDelaySession"
proof -
  from pause_changes_status_only [of sampleChess midDelaySession]
  have "gameState (pauseGame sampleChess midDelaySession)
          = (gameState midDelaySession)\<lparr>isGameActive := False\<rparr>"
    and "gameState (startGame sampleChess (pauseGame sampleChess midDelaySession))
          = (gameState midDelaySession)\<lparr>isGameActive := True\<rparr>"
    and "timer (startGame sampleChess (pauseGame sampleChess midDelaySession))
          = scheduleMove sampleChess ((gameState midDelaySession)\<lparr>isGameActive := True\<rparr>)"
    by simp_all
  then show ?thesis
    by (simp add: midDelaySession_eq scheduleMove_def sampleChess_simps session.equality)
qed

subsection \<open>Reset\<close>

text \<open>
  C8. From every session the reset command leads to the state the component starts
  with: the board is the position of \<^verbatim>\<open>new Chess()\<close>, the initial position; the move
  history is empty; both capture lists are empty; the session is not active, and no
  move is scheduled.
\<close>

theorem reset_replaces_session:
  "gameState (resetGame lib s) = initialGameState lib
   \<and> game (gameState (resetGame lib s)) = newChess lib
   \<and> gameHistory (gameState (resetGame lib s)) = []
   \<and> white (capturedPieces (gameState (resetGame lib s))) = []
   \<and> black (capturedPieces (gameState (resetGame lib s))) = []
   \<and> isGameActive (gameState (resetGame lib s)) = False
   \<and> currentPlayer (gameState (resetGame lib s)) = White
   \<and> resetGame lib s = initialSession lib"
  by (simp add: resetGame_def setGameState_def depsChanged_def initialSession_def
      initialGameState_def)

theorem reset_replaces_session_witness:
  "resetGame sampleChess midDelaySession
     = \<lparr>gameState = \<lparr>game = startFen, gameHistory = [], isGameActive = False,
          currentPlayer = White, gameSpeed = 2000, capturedPieces = \<lparr>white = [], black = []\<rparr>\<rparr>,
        timer = None\<rparr>"
  using reset_replaces_session [of sampleChess midDelaySession]
  by (simp add: initialSession_def initialGameState_def scheduleMove_def sampleChess_simps)

text \<open>
  The claim C9 as written fails. In \<open>midDelaySession\<close> the position after 1. e4 is on
  the board and the next move is pending; after reset the board is the starting
  position, not the board the delay began with.
\<close>

theorem reset_board_counterexample:
  "timer midDelaySession \<noteq> None
   \<and> game (gameState midDelaySession) = afterE4Fen
   \<and> game (gameState (resetGame sampleChess midDelaySession)) = startFen
   \<and> game (gameState (resetGame sampleChess midDelaySession)) \<noteq> game (gameState midDelaySession)"
  by (simp add: midDelaySession_eq gameState_resetGame initialGameState_def sampleChess_simps
      fens_distinct)

text \<open>
  C9, amended. When a reset occurs while a move is pending, the pending move is
  discarded: no timeout is pending after the reset, and when the cancelled delay
  elapses nothing changes. The resulting board is the initial position of
  \<^verbatim>\<open>new Chess()\<close>, and it stays so.
\<close>

theorem reset_discards_pending_move:
  "timer (resetGame lib s) = None
   \<and> timerFires lib g (resetGame lib s) = resetGame lib s
   \<and> game (gameState (resetGame lib s)) = newChess lib
   \<and> game (gameState (timerFires lib g (resetGame lib s))) = newChess lib"
proof -
  have t: "timer (resetGame lib s) = None"
    by (rule timer_resetGame)
  then have "timerFires lib g (resetGame lib s) = resetGame lib s"
    by (rule timerFires_idle)
  with t show ?thesis
    by (simp add: gameState_resetGame initialGameState_def)
qed

theorem reset_discards_pending_move_witness:
  "timer midDelaySession \<noteq> None
   \<and> timer (resetGame sampleChess midDelaySession) = None
   \<and> game (gameState (timerFires sampleChess e4Draws (resetGame sampleChess midDelaySession)))
       = startFen"
  using reset_discards_pending_move [of sampleChess midDelaySession e4Draws]
  by (simp add: midDelaySession_eq sampleChess_simps)

text \<open>
  C10. The reset command sets the configured delay to 2000 milliseconds, the delay the
  component starts with, whatever delay the delay-change command had set before: the
  configured delay is not kept across a reset.
\<close>

theorem reset_restores_default_delay:
  "gameSpeed (gameState (resetGame lib s)) = 2000
   \<and> gameSpeed (gameState (resetGame lib (handleSpeedChange lib v s))) = 2000
   \<and> gameSpeed (initialGameState lib) = 2000"
  by (simp add: resetGame_def setGameState_def initialGameState_def)

theorem reset_restores_default_delay_witness:
  "gameSpeed (gameState (handleSpeedChange sampleChess 750 midDelaySession)) = 750
   \<and> gameSpeed (gameState (resetGame sampleChess (handleSpeedChange sampleChess 750 midDelaySession)))
       = 2000"
  using reset_restores_default_delay [of sampleChess midDelaySession 750]
  by (simp add: handleSpeedChange_def setGameState_def)

end
